theory Spec2Isabelle
  imports Complex_Main "HOL-Library.AList"
begin

section \<open>Values exchanged with the remote service\<close>

text \<open>
  \<open>response.json()\<close> yields an arbitrary parsed JSON document. Python's \<open>None\<close> and JSON
  \<open>null\<close> are the same value \<open>JNull\<close>; a parsed object is an association list with
  distinct keys, read with \<open>map_of\<close>; floats are the finite ones, as rationals; a
  string is the list of its UTF-8 bytes, so two strings are equal when Python's are.
\<close>

datatype json =
    JNull
  | JBool bool
  | JInt int
  | JFloat rat
  | JStr string
  | JArr "json list"
  | JObj "(string \<times> json) list"

text \<open>Every exception the client can raise (\<open>FostPlusApiException\<close> carries its code).\<close>

datatype error =
    TypeError
  | KeyError
  | IndexError
  | ValueError
  | AttributeError
  | OverflowError
  | RequestException
  | JSONDecodeError
  | FostPlusApiException string

text \<open>The property \<open>code\<close> of \<open>FostPlusApiException\<close>.\<close>

fun code :: "error \<Rightarrow> string option" where
  "code (FostPlusApiException c) = Some c"
| "code _ = None"

definition ebind :: "error + 'a \<Rightarrow> ('a \<Rightarrow> error + 'b) \<Rightarrow> error + 'b" where
  "ebind m f = (case m of Inl e \<Rightarrow> Inl e | Inr v \<Rightarrow> f v)"

subsection \<open>Python's operators on parsed JSON\<close>

text \<open>\<open>bool(x)\<close>, as used by \<open>not x\<close> and \<open>if x\<close>.\<close>

fun truthy :: "json \<Rightarrow> bool" where
  "truthy JNull = False"
| "truthy (JBool b) = b"
| "truthy (JInt n) = (n \<noteq> 0)"
| "truthy (JFloat q) = (q \<noteq> 0)"
| "truthy (JStr s) = (s \<noteq> [])"
| "truthy (JArr xs) = (xs \<noteq> [])"
| "truthy (JObj kvs) = (kvs \<noteq> [])"

text \<open>\<open>x[k]\<close> with a string key \<open>k\<close>.\<close>

fun getitem :: "json \<Rightarrow> string \<Rightarrow> error + json" where
  "getitem (JObj kvs) k = (case map_of kvs k of None \<Rightarrow> Inl KeyError | Some v \<Rightarrow> Inr v)"
| "getitem _ k = Inl TypeError"

text \<open>
  The characters of a string: each byte that opens a code point, with the continuation
  bytes that follow it.
\<close>

definition is_continuation :: "char \<Rightarrow> bool" where
  "is_continuation ch = (let n = (of_char ch :: nat) in 128 \<le> n \<and> n < 192)"

function code_points :: "string \<Rightarrow> string list" where
  "code_points [] = []"
| "code_points (ch # cs) =
     (ch # takeWhile is_continuation cs) # code_points (dropWhile is_continuation cs)"
  by pat_completeness auto
termination
  by (relation "measure length") (auto simp: length_dropWhile_le less_Suc_eq_le)

text \<open>\<open>x[0]\<close>; the keys of a parsed object are strings, so \<open>0\<close> is never one of them.\<close>

fun getitem0 :: "json \<Rightarrow> error + json" where
  "getitem0 (JArr []) = Inl IndexError"
| "getitem0 (JArr (x # xs)) = Inr x"
| "getitem0 (JStr s) = (case code_points s of [] \<Rightarrow> Inl IndexError | p # ps \<Rightarrow> Inr (JStr p))"
| "getitem0 (JObj kvs) = Inl KeyError"
| "getitem0 _ = Inl TypeError"

text \<open>\<open>x.get(k, d)\<close>: only a dict has the method.\<close>

fun dict_get :: "json \<Rightarrow> string \<Rightarrow> json \<Rightarrow> error + json" where
  "dict_get (JObj kvs) k d = (case map_of kvs k of None \<Rightarrow> Inr d | Some v \<Rightarrow> Inr v)"
| "dict_get _ k d = Inl AttributeError"

fun is_substring :: "string \<Rightarrow> string \<Rightarrow> bool" where
  "is_substring k [] = (k = [])"
| "is_substring k (c # cs) = (take (length k) (c # cs) = k \<or> is_substring k cs)"

text \<open>\<open>k in x\<close> with a string \<open>k\<close>: a key of a dict, an element of a list, a substring of a string.\<close>

fun contains :: "string \<Rightarrow> json \<Rightarrow> error + bool" where
  "contains k (JObj kvs) = Inr (k \<in> fst ` set kvs)"
| "contains k (JArr xs) = Inr (JStr k \<in> set xs)"
| "contains k (JStr s) = Inr (is_substring k s)"
| "contains k _ = Inl TypeError"

text \<open>The elements a \<open>for\<close> loop (or \<open>list +=\<close>) draws from a value.\<close>

fun iterate :: "json \<Rightarrow> error + json list" where
  "iterate (JArr xs) = Inr xs"
| "iterate (JStr s) = Inr (map JStr (code_points s))"
| "iterate (JObj kvs) = Inr (map (\<lambda>kv. JStr (fst kv)) kvs)"
| "iterate _ = Inl TypeError"

text \<open>\<open>n > x\<close> and \<open>x != 1\<close> for an int on the left; \<open>True\<close> counts as 1.\<close>

fun int_gt :: "int \<Rightarrow> json \<Rightarrow> error + bool" where
  "int_gt n (JInt m) = Inr (n > m)"
| "int_gt n (JFloat q) = Inr (of_int n > q)"
| "int_gt n (JBool b) = Inr (n > (if b then 1 else 0))"
| "int_gt n _ = Inl TypeError"

fun ne_one :: "json \<Rightarrow> bool" where
  "ne_one (JInt m) = (m \<noteq> 1)"
| "ne_one (JFloat q) = (q \<noteq> 1)"
| "ne_one (JBool b) = (\<not> b)"
| "ne_one _ = True"

subsection \<open>Text\<close>

text \<open>
  An f-string is kept as its pieces: text already known to be a string, and values that
  \<open>str()\<close> would render. \<open>str\<close> of an int is its decimal numeral.
\<close>

datatype piece = Lit string | Val json

type_synonym ftext = "piece list"

definition digit_char :: "nat \<Rightarrow> char" where
  "digit_char d = char_of (48 + d)"

function digits :: "nat \<Rightarrow> string" where
  "digits n = (if n < 10 then [digit_char n] else digits (n div 10) @ [digit_char (n mod 10)])"
  by pat_completeness auto
termination
  by (relation "measure id") auto

declare digits.simps [simp del]

definition str_int :: "int \<Rightarrow> string" where
  "str_int i = (if i < 0 then CHR ''-'' # digits (nat (- i)) else digits (nat i))"

section \<open>The session and the transport\<close>

datatype http_method = GET | POST

record request =
  verb :: http_method
  url :: ftext
  payload :: json

text \<open>
  \<open>body = None\<close>: the body is not JSON, and \<open>response.json()\<close> raises.
\<close>

record http_response =
  status_code :: int
  body :: "json option"

text \<open>
  The remote side answers a request knowing the requests sent before it; \<open>None\<close> is a
  transport failure, which \<open>requests\<close> raises.
\<close>

type_synonym server = "request list \<Rightarrow> request \<Rightarrow> http_response option"

text \<open>
  The client's attributes \<open>__session\<close> (set or not) and \<open>__endpoint\<close> (unset until
  discovered), with the requests issued so far.
\<close>

record client =
  session :: bool
  endpoint :: "ftext option"
  sent :: "request list"

definition send :: "server \<Rightarrow> request \<Rightarrow> client \<Rightarrow> http_response option \<times> client" where
  "send srv rq c = (srv (sent c) rq, c\<lparr>sent := sent c @ [rq]\<rparr>)"

definition response_json :: "http_response \<Rightarrow> error + json" where
  "response_json r = (case body r of None \<Rightarrow> Inl JSONDecodeError | Some j \<Rightarrow> Inr j)"

definition settings_request :: request where
  "settings_request =
     \<lparr>verb = GET, url = [Lit ''https://www.recycleapp.be/config/app.settings.json''],
      payload = JNull\<rparr>"

definition ensure_initialization :: "server \<Rightarrow> client \<Rightarrow> (error + unit) \<times> client" where
  "ensure_initialization srv c =
     (if session c then (Inr (), c)
      else
        (case send srv settings_request (c\<lparr>session := True\<rparr>) of
           (None, c') \<Rightarrow> (Inl RequestException, c')
         | (Some r, c') \<Rightarrow>
             (case ebind (response_json r) (\<lambda>j. getitem j ''API'') of
                Inl e \<Rightarrow> (Inl e, c')
              | Inr base_url \<Rightarrow>
                  (Inr (), c'\<lparr>endpoint := Some [Val base_url, Lit ''/public/v1'']\<rparr>))))"


text \<open>\<open>f"{self.__endpoint}/{action}"\<close>; reading an unset attribute raises.\<close>

definition action_url :: "client \<Rightarrow> string \<Rightarrow> error + ftext" where
  "action_url c action =
     (case endpoint c of None \<Rightarrow> Inl AttributeError
      | Some e \<Rightarrow> Inr (e @ [Lit (''/'' @ action)]))"

text \<open>
  The body of \<open>for _ in range(2)\<close>, with the number of rounds left: one request per round,
  the parsed body on status 200, \<open>None\<close> when the rounds are used up.
\<close>

fun attempts :: "nat \<Rightarrow> server \<Rightarrow> http_method \<Rightarrow> string \<Rightarrow> json \<Rightarrow> client
    \<Rightarrow> (error + json) \<times> client" where
  "attempts 0 srv m action data c = (Inr JNull, c)"
| "attempts (Suc n) srv m action data c =
     (case action_url c action of
        Inl e \<Rightarrow> (Inl e, c)
      | Inr u \<Rightarrow>
          (case send srv \<lparr>verb = m, url = u, payload = data\<rparr> c of
             (None, c') \<Rightarrow> (Inl RequestException, c')
           | (Some r, c') \<Rightarrow>
               if status_code r = 200 then (response_json r, c')
               else attempts n srv m action data c'))"

definition post :: "server \<Rightarrow> string \<Rightarrow> json \<Rightarrow> client \<Rightarrow> (error + json) \<times> client" where
  "post srv action data c =
     (case ensure_initialization srv c of
        (Inl e, c') \<Rightarrow> (Inl e, c')
      | (Inr _, c') \<Rightarrow> attempts 2 srv POST action data c')"

definition get :: "server \<Rightarrow> string \<Rightarrow> client \<Rightarrow> (error + json) \<times> client" where
  "get srv action c =
     (case ensure_initialization srv c of
        (Inl e, c') \<Rightarrow> (Inl e, c')
      | (Inr _, c') \<Rightarrow> attempts 2 srv GET action JNull c')"

section \<open>Pagination\<close>

text \<open>
  The loop test \<open>not response or "items" not in response or "pages" not in response\<close>,
  evaluated left to right.
\<close>

definition page_unusable :: "json \<Rightarrow> error + bool" where
  "page_unusable response =
     (if \<not> truthy response then Inr True
      else ebind (contains ''items'' response) (\<lambda>has_items.
        if \<not> has_items then Inr True
        else ebind (contains ''pages'' response) (\<lambda>has_pages. Inr (\<not> has_pages))))"

text \<open>
  One round of the loop after the request: whether the loop breaks, with the new
  \<open>items\<close> and \<open>page\<close>.
\<close>

definition absorb_page :: "json \<Rightarrow> json list \<Rightarrow> int \<Rightarrow> error + (bool \<times> json list \<times> int)" where
  "absorb_page response items page =
     ebind (page_unusable response) (\<lambda>stop.
       if stop then Inr (True, items, page)
       else ebind (getitem response ''items'') (\<lambda>v.
            ebind (iterate v) (\<lambda>xs.
            ebind (getitem response ''pages'') (\<lambda>p.
            ebind (int_gt (page + 1) p) (\<lambda>last.
              Inr (last, items @ xs, page + 1))))))"

definition page_action :: "string \<Rightarrow> int \<Rightarrow> int \<Rightarrow> string" where
  "page_action action page psize = action @ ''&page='' @ str_int page @ ''&size='' @ str_int psize"

text \<open>\<open>while True\<close>: a run that never leaves the loop has the value \<open>None\<close>.\<close>

partial_function (option) load_all_loop ::
    "server \<Rightarrow> string \<Rightarrow> int \<Rightarrow> json list \<Rightarrow> int \<Rightarrow> client
      \<Rightarrow> ((error + json list) \<times> client) option" where
  "load_all_loop srv action psize items page c =
     (case get srv (page_action action page psize) c of
        (Inl e, c') \<Rightarrow> Some (Inl e, c')
      | (Inr response, c') \<Rightarrow>
          (case absorb_page response items page of
             Inl e \<Rightarrow> Some (Inl e, c')
           | Inr (stop, items', page') \<Rightarrow>
               if stop then Some (Inr items', c')
               else load_all_loop srv action psize items' page' c'))"

definition load_all :: "server \<Rightarrow> string \<Rightarrow> int \<Rightarrow> client
    \<Rightarrow> ((error + json list) \<times> client) option" where
  "load_all srv action psize c = load_all_loop srv action psize [] 1 c"

section \<open>Zip codes and streets\<close>

text \<open>A comprehension over a list: the first element that raises ends it.\<close>

fun traverse :: "('a \<Rightarrow> error + 'b) \<Rightarrow> 'a list \<Rightarrow> error + 'b list" where
  "traverse f [] = Inr []"
| "traverse f (x # xs) =
     (case f x of
        Inl e \<Rightarrow> Inl e
      | Inr y \<Rightarrow> (case traverse f xs of Inl e \<Rightarrow> Inl e | Inr ys \<Rightarrow> Inr (y # ys)))"

definition zip_entry :: "string \<Rightarrow> json \<Rightarrow> json \<Rightarrow> error + (json \<times> ftext)" where
  "zip_entry language item name =
     ebind (getitem item ''id'') (\<lambda>i.
     ebind (getitem item ''code'') (\<lambda>cd.
     ebind (getitem name language) (\<lambda>nm.
       Inr (i, [Val cd, Lit '' - '', Val nm]))))"

definition zip_item :: "string \<Rightarrow> json \<Rightarrow> error + (json \<times> ftext) list" where
  "zip_item language item =
     ebind (getitem item ''names'') (\<lambda>ns.
     ebind (iterate ns) (\<lambda>names. traverse (zip_entry language item) names))"


text \<open>
  \<open>str.strip()\<close> and \<open>str.lower()\<close> follow Unicode's tables of whitespace and of
  lower-case forms. The operations below take them as the parameters \<open>strip\<close> and
  \<open>lower\<close>, any two functions on strings. What they do on ASCII text is
  \<open>ascii_strip\<close> and \<open>ascii_lower\<close>, which the sample runs use.
\<close>

definition is_space :: "char \<Rightarrow> bool" where
  "is_space ch = (let n = (of_char ch :: nat) in (9 \<le> n \<and> n \<le> 13) \<or> (28 \<le> n \<and> n \<le> 32))"

definition ascii_strip :: "string \<Rightarrow> string" where
  "ascii_strip s = rev (dropWhile is_space (rev (dropWhile is_space s)))"

definition lower_char :: "char \<Rightarrow> char" where
  "lower_char ch =
     (let n = (of_char ch :: nat) in if 65 \<le> n \<and> n \<le> 90 then char_of (n + 32) else ch)"

definition ascii_lower :: "string \<Rightarrow> string" where
  "ascii_lower s = map lower_char s"

text \<open>The generator's test \<open>i["names"][language].strip().lower() == street\<close>.\<close>

definition candidate_matches :: "(string \<Rightarrow> string) \<Rightarrow> (string \<Rightarrow> string) \<Rightarrow> string \<Rightarrow> string
    \<Rightarrow> json \<Rightarrow> error + bool" where
  "candidate_matches strip lower language street i =
     ebind (getitem i ''names'') (\<lambda>ns.
     ebind (getitem ns language) (\<lambda>nm.
       case nm of JStr s \<Rightarrow> Inr (lower (strip s) = street) | _ \<Rightarrow> Inl AttributeError))"

text \<open>\<open>next(generator, None)\<close>: candidates after the first match are not looked at.\<close>

fun first_match :: "(string \<Rightarrow> string) \<Rightarrow> (string \<Rightarrow> string) \<Rightarrow> string \<Rightarrow> string
    \<Rightarrow> json list \<Rightarrow> error + json" where
  "first_match strip lower language street [] = Inr JNull"
| "first_match strip lower language street (i # rest) =
     (case candidate_matches strip lower language street i of
        Inl e \<Rightarrow> Inl e
      | Inr hit \<Rightarrow> if hit then Inr i else first_match strip lower language street rest)"

definition pick_street :: "(string \<Rightarrow> string) \<Rightarrow> (string \<Rightarrow> string) \<Rightarrow> string \<Rightarrow> string
    \<Rightarrow> json \<Rightarrow> error + (json \<times> json)" where
  "pick_street strip lower language street result =
     ebind (getitem result ''total'') (\<lambda>total.
       if ne_one total then
         ebind (getitem result ''items'') (\<lambda>v.
         ebind (iterate v) (\<lambda>items.
         ebind (first_match strip lower language street items) (\<lambda>item.
           if \<not> truthy item then Inl (FostPlusApiException ''invalid_streetname'')
           else ebind (getitem item ''id'') (\<lambda>i.
                ebind (getitem item ''names'') (\<lambda>ns.
                ebind (getitem ns language) (\<lambda>nm. Inr (i, nm)))))))
       else
         ebind (getitem result ''items'') (\<lambda>v.
         ebind (getitem0 v) (\<lambda>first.
         ebind (getitem first ''id'') (\<lambda>i.
         ebind (getitem first ''names'') (\<lambda>ns.
         ebind (getitem ns language) (\<lambda>nm. Inr (i, nm)))))))"

definition street_action :: "string \<Rightarrow> string \<Rightarrow> string" where
  "street_action street zip_code_id = ''streets?q='' @ street @ ''&zipcodes='' @ zip_code_id"

definition get_street :: "server \<Rightarrow> (string \<Rightarrow> string) \<Rightarrow> (string \<Rightarrow> string) \<Rightarrow> string \<Rightarrow> string
    \<Rightarrow> string \<Rightarrow> client \<Rightarrow> (error + (json \<times> json)) \<times> client" where
  "get_street srv strip lower street zip_code_id language c =
     (let street' = lower (strip street) in
      case post srv (street_action street' zip_code_id) JNull c of
        (Inl e, c') \<Rightarrow> (Inl e, c')
      | (Inr result, c') \<Rightarrow> (pick_street strip lower language street' result, c'))"

section \<open>Recycling parks\<close>

text \<open>The dict built for one park; \<open>coordinates\<close> is (latitude, longitude).\<close>

record park =
  name :: json
  exceptions :: json
  periods :: json
  coordinates :: "json \<times> json"
  location :: string
  description :: string

fun str_of :: "json \<Rightarrow> error + string" where
  "str_of (JStr s) = Inr s"
| "str_of _ = Inl TypeError"

fun intercalate :: "string \<Rightarrow> string list \<Rightarrow> string" where
  "intercalate sep [] = []"
| "intercalate sep [s] = s"
| "intercalate sep (s # t # ss) = s @ sep @ intercalate sep (t # ss)"

text \<open>\<open>sep.join(filter(None, xs))\<close>: the falsy values are dropped, the rest must be strings.\<close>

definition join_truthy :: "string \<Rightarrow> json list \<Rightarrow> error + string" where
  "join_truthy sep xs = ebind (traverse str_of (filter truthy xs)) (\<lambda>ss. Inr (intercalate sep ss))"

text \<open>
  A value used as a dict key: lists and dicts are unhashable; \<open>True\<close>, \<open>1\<close> and \<open>1.0\<close>
  are one key, kept here as the int.
\<close>

fun dict_key :: "json \<Rightarrow> error + json" where
  "dict_key (JArr xs) = Inl TypeError"
| "dict_key (JObj kvs) = Inl TypeError"
| "dict_key (JBool b) = Inr (JInt (if b then 1 else 0))"
| "dict_key (JFloat q) = Inr (if of_int \<lfloor>q\<rfloor> = q then JInt \<lfloor>q\<rfloor> else JFloat q)"
| "dict_key v = Inr v"





section \<open>Fractions and collections\<close>

text \<open>
  \<open>COLLECTION_TYPES\<close> is declared in the package's constants module; it is a parameter
  here, the recognized logo ids as strings. Only a string can equal one of them, and
  \<open>in\<close> is membership by equality (a hash-based container would besides raise on an
  id that is a list or a dict).
\<close>

definition allowed_id :: "string list \<Rightarrow> json \<Rightarrow> string option" where
  "allowed_id COLLECTION_TYPES v =
     (case v of JStr s \<Rightarrow> if s \<in> set COLLECTION_TYPES then Some s else None | _ \<Rightarrow> None)"

record date =
  year :: int
  month :: int
  day :: int

definition fractions_action :: "date \<Rightarrow> string \<Rightarrow> string \<Rightarrow> int \<Rightarrow> string" where
  "fractions_action now zip_code_id street_id house_number =
     (let start_year = (if month now \<ge> 6 then year now else year now - 1) in
      ''collections?zipcodeId='' @ zip_code_id @ ''&streetId='' @ street_id
      @ ''&houseNumber='' @ str_int house_number
      @ ''&fromDate='' @ str_int start_year @ ''-01-01''
      @ ''&untilDate='' @ str_int (start_year + 1) @ ''-12-31'')"

text \<open>
  One round of the dict comprehension: \<open>None\<close> when the filter rejects \<open>f\<close>, else the key
  and the value.
\<close>

definition fraction_entry :: "string list \<Rightarrow> string \<Rightarrow> json
    \<Rightarrow> error + (string \<times> json \<times> json) option" where
  "fraction_entry COLLECTION_TYPES language f =
     ebind (getitem f ''fraction'') (\<lambda>fr.
     ebind (contains ''logo'' fr) (\<lambda>has_logo.
       if \<not> has_logo then Inr None
       else ebind (getitem fr ''logo'') (\<lambda>logo.
            ebind (getitem logo ''id'') (\<lambda>logo_id.
              case allowed_id COLLECTION_TYPES logo_id of
                None \<Rightarrow> Inr None
              | Some k \<Rightarrow>
                  ebind (getitem fr ''color'') (\<lambda>color.
                  ebind (getitem fr ''name'') (\<lambda>names.
                  ebind (getitem names language) (\<lambda>nm. Inr (Some (k, color, nm)))))))))"

text \<open>A dict filled in order: a key met again keeps its place and takes the new value.\<close>

definition build_dict :: "('k \<times> 'v) list \<Rightarrow> ('k \<times> 'v) list" where
  "build_dict kvs = foldl (\<lambda>d kv. AList.update (fst kv) (snd kv) d) [] kvs"

definition get_fractions :: "server \<Rightarrow> string list \<Rightarrow> date \<Rightarrow> string \<Rightarrow> string \<Rightarrow> int \<Rightarrow> string
    \<Rightarrow> int \<Rightarrow> client \<Rightarrow> ((error + (string \<times> json \<times> json) list) \<times> client) option" where
  "get_fractions srv COLLECTION_TYPES now zip_code_id street_id house_number language psize c =
     (case load_all srv (fractions_action now zip_code_id street_id house_number) psize c of
        None \<Rightarrow> None
      | Some (Inl e, c') \<Rightarrow> Some (Inl e, c')
      | Some (Inr items, c') \<Rightarrow>
          Some (ebind (traverse (fraction_entry COLLECTION_TYPES language) items) (\<lambda>entries.
                  Inr (build_dict (List.map_filter id entries))), c'))"

subsection \<open>Dates\<close>

definition is_leap :: "int \<Rightarrow> bool" where
  "is_leap y = (y mod 4 = 0 \<and> (y mod 100 \<noteq> 0 \<or> y mod 400 = 0))"

definition days_in_month :: "int \<Rightarrow> int \<Rightarrow> int" where
  "days_in_month y m =
     (if m = 2 then (if is_leap y then 29 else 28)
      else if m = 4 \<or> m = 6 \<or> m = 9 \<or> m = 11 then 30 else 31)"

definition c_int :: "int \<Rightarrow> bool" where
  "c_int i = (- 2147483648 \<le> i \<and> i \<le> 2147483647)"

text \<open>
  \<open>date(y, m, d)\<close>: an argument that does not fit a C int is an \<open>OverflowError\<close>, a
  date that does not exist a \<open>ValueError\<close>.
\<close>

definition make_date :: "int \<Rightarrow> int \<Rightarrow> int \<Rightarrow> error + date" where
  "make_date y m d =
     (if \<not> (c_int y \<and> c_int m \<and> c_int d) then Inl OverflowError
      else if 1 \<le> y \<and> y \<le> 9999 \<and> 1 \<le> m \<and> m \<le> 12 \<and> 1 \<le> d \<and> d \<le> days_in_month y m
      then Inr \<lparr>year = y, month = m, day = d\<rparr>
      else Inl ValueError)"

definition next_day :: "date \<Rightarrow> error + date" where
  "next_day d =
     (if day d < days_in_month (year d) (month d) then Inr (d\<lparr>day := day d + 1\<rparr>)
      else if month d < 12 then Inr \<lparr>year = year d, month = month d + 1, day = 1\<rparr>
      else if year d < 9999 then Inr \<lparr>year = year d + 1, month = 1, day = 1\<rparr>
      else Inl OverflowError)"

text \<open>\<open>d + timedelta(days=n)\<close>.\<close>

fun add_days :: "nat \<Rightarrow> date \<Rightarrow> error + date" where
  "add_days 0 d = Inr d"
| "add_days (Suc n) d = (case next_day d of Inl e \<Rightarrow> Inl e | Inr d' \<Rightarrow> add_days n d')"

definition zero_pad :: "nat \<Rightarrow> string \<Rightarrow> string" where
  "zero_pad n s = replicate (n - length s) CHR ''0'' @ s"

text \<open>
  \<open>strftime("%Y-%m-%d")\<close> as glibc renders it: month and day on two digits, the year as
  it is, without padding.
\<close>

definition strftime :: "date \<Rightarrow> string" where
  "strftime d =
     str_int (year d) @ ''-'' @ zero_pad 2 (str_int (month d)) @ ''-''
     @ zero_pad 2 (str_int (day d))"

subsection \<open>Reading a timestamp\<close>

text \<open>\<open>s.split(sep)\<close> for a one-character separator.\<close>

fun split_on :: "char \<Rightarrow> string \<Rightarrow> string list" where
  "split_on sep [] = [[]]"
| "split_on sep (ch # cs) =
     (if ch = sep then [] # split_on sep cs
      else (case split_on sep cs of [] \<Rightarrow> [[ch]] | p # ps \<Rightarrow> (ch # p) # ps))"

definition item_at :: "'a list \<Rightarrow> nat \<Rightarrow> error + 'a" where
  "item_at xs i = (if i < length xs then Inr (xs ! i) else Inl IndexError)"

definition is_digit :: "char \<Rightarrow> bool" where
  "is_digit ch = (let n = (of_char ch :: nat) in 48 \<le> n \<and> n \<le> 57)"

text \<open>Digits, with single underscores allowed between them.\<close>

fun valid_digits :: "string \<Rightarrow> bool" where
  "valid_digits [] = False"
| "valid_digits [ch] = is_digit ch"
| "valid_digits (ch # d # cs) =
     (is_digit ch \<and> (if d = CHR ''_'' then valid_digits cs else valid_digits (d # cs)))"

definition digits_value :: "string \<Rightarrow> int" where
  "digits_value ds = foldl (\<lambda>acc ch. 10 * acc + (int (of_char ch) - 48)) 0 (filter is_digit ds)"

text \<open>The whitespace \<open>int()\<close> skips around an ASCII numeral: tab to carriage return, and space.\<close>

definition is_c_space :: "char \<Rightarrow> bool" where
  "is_c_space ch = (let n = (of_char ch :: nat) in (9 \<le> n \<and> n \<le> 13) \<or> n = 32)"

definition c_strip :: "string \<Rightarrow> string" where
  "c_strip s = rev (dropWhile is_c_space (rev (dropWhile is_c_space s)))"

text \<open>
  \<open>int(s)\<close> for a string: surrounding whitespace, one optional sign, decimal digits, at
  most 4300 of them (the interpreter's default limit). The digits and spaces outside
  ASCII that \<open>int()\<close> also reads are a \<open>ValueError\<close> here.
\<close>

definition py_int :: "string \<Rightarrow> error + int" where
  "py_int s =
     (let t = c_strip s;
          neg = (t \<noteq> [] \<and> hd t = CHR ''-'');
          ds = (if t \<noteq> [] \<and> (hd t = CHR ''-'' \<or> hd t = CHR ''+'') then tl t else t)
      in if valid_digits ds \<and> length (filter is_digit ds) \<le> 4300
         then Inr (if neg then - digits_value ds else digits_value ds)
         else Inl ValueError)"

subsection \<open>The collection calendar\<close>

text \<open>\<open>item.get("fraction", EMPTY_DICT).get("logo", EMPTY_DICT).get("id", None)\<close>\<close>

definition fraction_id_of :: "json \<Rightarrow> error + json" where
  "fraction_id_of item =
     ebind (dict_get item ''fraction'' (JObj [])) (\<lambda>fr.
     ebind (dict_get fr ''logo'' (JObj [])) (\<lambda>logo.
       dict_get logo ''id'' JNull))"

text \<open>
  From \<open>parts = ....split("T")[0].split("-")\<close> to \<open>date(int(parts[0]), int(parts[1]),
  int(parts[2]))\<close>, the arguments read left to right; \<open>None\<close> is the \<open>continue\<close> on an
  empty first part.
\<close>

definition parse_timestamp :: "string \<Rightarrow> error + date option" where
  "parse_timestamp t =
     ebind (item_at (split_on CHR ''T'' t) 0) (\<lambda>day_text.
     let parts = split_on CHR ''-'' day_text in
     ebind (item_at parts 0) (\<lambda>p0.
       if p0 = [] then Inr None
       else ebind (py_int p0) (\<lambda>y.
            ebind (item_at parts 1) (\<lambda>p1.
            ebind (py_int p1) (\<lambda>m.
            ebind (item_at parts 2) (\<lambda>p2.
            ebind (py_int p2) (\<lambda>d.
            ebind (make_date y m d) (\<lambda>collection_date. Inr (Some collection_date)))))))))"

text \<open>
  \<open>fraction = result[fraction_id]\<close> on the \<open>defaultdict\<close>, then the append unless the date
  is there already.
\<close>

definition add_date :: "string \<Rightarrow> date \<Rightarrow> (string \<times> date list) list \<Rightarrow> (string \<times> date list) list" where
  "add_date k collection_date result =
     (let fraction = (case map_of result k of None \<Rightarrow> [] | Some ds \<Rightarrow> ds)
      in AList.update k
           (if collection_date \<in> set fraction then fraction else fraction @ [collection_date])
           result)"

text \<open>
  The body of \<open>for item in collections\<close>: the calendar after the item, \<open>continue\<close> leaving
  it as it was.
\<close>

definition collect_item :: "string list \<Rightarrow> json \<Rightarrow> (string \<times> date list) list
    \<Rightarrow> error + (string \<times> date list) list" where
  "collect_item COLLECTION_TYPES item result =
     ebind (dict_get item ''exception'' (JObj [])) (\<lambda>ex.
     ebind (dict_get ex ''replacedBy'' JNull) (\<lambda>replaced_by.
       if truthy replaced_by then Inr result
       else ebind (fraction_id_of item) (\<lambda>fraction_id.
              case allowed_id COLLECTION_TYPES fraction_id of
                None \<Rightarrow> Inr result
              | Some k \<Rightarrow>
                  ebind (dict_get item ''timestamp'' (JStr [])) (\<lambda>ts.
                    case ts of
                      JStr t \<Rightarrow>
                        ebind (parse_timestamp t) (\<lambda>parsed.
                          case parsed of
                            None \<Rightarrow> Inr result
                          | Some collection_date \<Rightarrow> Inr (add_date k collection_date result))
                    | _ \<Rightarrow> Inl AttributeError))))"

fun collect_all :: "string list \<Rightarrow> json list \<Rightarrow> (string \<times> date list) list
    \<Rightarrow> error + (string \<times> date list) list" where
  "collect_all COLLECTION_TYPES [] result = Inr result"
| "collect_all COLLECTION_TYPES (item # items) result =
     (case collect_item COLLECTION_TYPES item result of
        Inl e \<Rightarrow> Inl e
      | Inr result' \<Rightarrow> collect_all COLLECTION_TYPES items result')"

definition collections_action :: "string \<Rightarrow> string \<Rightarrow> int \<Rightarrow> date \<Rightarrow> date \<Rightarrow> int \<Rightarrow> string" where
  "collections_action zip_code_id street_id house_number from_date until_date psize =
     ''collections?zipcodeId='' @ zip_code_id @ ''&streetId='' @ street_id
     @ ''&houseNumber='' @ str_int house_number
     @ ''&fromDate='' @ strftime from_date @ ''&untilDate='' @ strftime until_date
     @ ''&size='' @ str_int psize"

text \<open>\<open>now\<close> is the clock's reading; an omitted date is \<open>None\<close>.\<close>

definition get_collections :: "server \<Rightarrow> string list \<Rightarrow> date \<Rightarrow> string \<Rightarrow> string \<Rightarrow> int
    \<Rightarrow> date option \<Rightarrow> date option \<Rightarrow> int \<Rightarrow> client
    \<Rightarrow> (error + (string \<times> date list) list) \<times> client" where
  "get_collections srv COLLECTION_TYPES now zip_code_id street_id house_number
       from_date until_date psize c =
     (let from_date' = (case from_date of None \<Rightarrow> now | Some d \<Rightarrow> d) in
      case (case until_date of None \<Rightarrow> add_days 56 from_date' | Some d \<Rightarrow> Inr d) of
        Inl e \<Rightarrow> (Inl e, c)
      | Inr until_date' \<Rightarrow>
          (case get srv (collections_action zip_code_id street_id house_number
                           from_date' until_date' psize) c of
             (Inl e, c') \<Rightarrow> (Inl e, c')
           | (Inr response, c') \<Rightarrow>
               (ebind (getitem response ''items'') (\<lambda>v.
                ebind (iterate v) (\<lambda>collections.
                  collect_all COLLECTION_TYPES collections [])), c')))"

section \<open>Vocabulary of the properties\<close>

text \<open>The candidate \<open>i\<close> carries the string \<open>s\<close> as its name in the language.\<close>

definition named :: "string \<Rightarrow> json \<Rightarrow> string \<Rightarrow> bool" where
  "named language i s =
     (ebind (getitem i ''names'') (\<lambda>ns. getitem ns language) = Inr (JStr s))"

text \<open>Every key of a calendar is a recognized id, and no date list repeats a date.\<close>

definition calendar_ok :: "string list \<Rightarrow> (string \<times> date list) list \<Rightarrow> bool" where
  "calendar_ok T r = (\<forall>p\<in>set r. fst p \<in> set T \<and> distinct (snd p))"

text \<open>The request \<open>load_all\<close> sends for page \<open>k\<close>, on a client whose endpoint is \<open>e\<close>.\<close>

definition page_request :: "ftext \<Rightarrow> string \<Rightarrow> int \<Rightarrow> int \<Rightarrow> request" where
  "page_request e action psize k =
     \<lparr>verb = GET, url = e @ [Lit (''/'' @ page_action action k psize)], payload = JNull\<rparr>"

text \<open>
  Whatever was sent before, the server answers the request for page \<open>k\<close> with status
  200 and an object whose \<open>items\<close> is the list \<open>pg k\<close> and whose \<open>pages\<close> is \<open>P\<close>.
\<close>

definition serves :: "server \<Rightarrow> ftext \<Rightarrow> string \<Rightarrow> int \<Rightarrow> (int \<Rightarrow> json list) \<Rightarrow> int \<Rightarrow> int \<Rightarrow> bool" where
  "serves srv e action psize pg P k =
     (\<forall>h. \<exists>kvs. srv h (page_request e action psize k)
                   = Some \<lparr>status_code = 200, body = Some (JObj kvs)\<rparr>
               \<and> map_of kvs ''items'' = Some (JArr (pg k))
               \<and> map_of kvs ''pages'' = Some (JInt P))"


text \<open>
  A result that, when it is an exception, is one without a code or a
  \<open>FostPlusApiException\<close> whose code is in \<open>C\<close>.
\<close>

definition raises_only :: "string set \<Rightarrow> error + 'a \<Rightarrow> bool" where
  "raises_only C m = (\<forall>e. m = Inl e \<longrightarrow> (case code e of None \<Rightarrow> True | Some c \<Rightarrow> c \<in> C))"

subsection \<open>Sample clients, servers and payloads\<close>

definition ready_client :: client where
  "ready_client =
     \<lparr>session = True,
      endpoint = Some [Val (JStr ''https://api.fostplus.be/recyclecms''), Lit ''/public/v1''],
      sent = []\<rparr>"

definition ok :: "json \<Rightarrow> http_response" where
  "ok j = \<lparr>status_code = 200, body = Some j\<rparr>"

definition unavailable :: http_response where
  "unavailable = \<lparr>status_code = 503, body = None\<rparr>"

text \<open>A server that gives every request the same answer.\<close>

definition always :: "http_response \<Rightarrow> server" where
  "always r h rq = Some r"

definition street_item :: "string \<Rightarrow> string \<Rightarrow> json" where
  "street_item i nm = JObj [(''id'', JStr i), (''names'', JObj [(''fr'', JStr nm)])]"

definition streets_response :: "int \<Rightarrow> json list \<Rightarrow> (string \<times> json) list" where
  "streets_response n cands = [(''items'', JArr cands), (''total'', JInt n)]"

definition collection_record :: "string \<Rightarrow> string \<Rightarrow> string \<Rightarrow> json" where
  "collection_record logo_id nm ts =
     JObj [(''timestamp'', JStr ts),
           (''fraction'', JObj [(''logo'', JObj [(''id'', JStr logo_id)]),
                                (''color'', JStr ''#2B5DA8''),
                                (''name'', JObj [(''fr'', JStr nm)])])]"

definition envelope :: "json list \<Rightarrow> int \<Rightarrow> json" where
  "envelope items pages = JObj [(''items'', JArr items), (''pages'', JInt pages)]"

text \<open>Servers that tell the second page from the first by the query string.\<close>

definition asks_page2 :: "request \<Rightarrow> bool" where
  "asks_page2 rq = (case last (url rq) of Lit s \<Rightarrow> is_substring ''&page=2&'' s | Val v \<Rightarrow> False)"

definition pmd_record :: json where
  "pmd_record = collection_record ''pmd'' ''PMC'' ''2024-05-01T00:00:00.000Z''"

definition glass_record :: json where
  "glass_record = collection_record ''glass'' ''Verre'' ''2024-05-08T00:00:00.000Z''"

definition split_server :: server where
  "split_server h rq =
     Some (ok (if asks_page2 rq then envelope [glass_record] 2 else envelope [pmd_record] 2))"



text \<open>A record whose logo carries no id, listed before a regular one.\<close>

definition no_id_record :: json where
  "no_id_record =
     JObj [(''timestamp'', JStr ''2024-05-03T00:00:00.000Z''),
           (''fraction'', JObj [(''logo'', JObj []),
                                (''color'', JStr ''#2B5DA8''),
                                (''name'', JObj [(''fr'', JStr ''Papier'')])])]"

definition no_id_server :: server where
  "no_id_server = always (ok (envelope [no_id_record, pmd_record] 1))"

definition sample_pages :: "int \<Rightarrow> json list" where
  "sample_pages k = (if k = 1 then [pmd_record] else [glass_record])"

definition spring :: date where
  "spring = \<lparr>year = 2024, month = 4, day = 20\<rparr>"

definition sample_action :: string where
  "sample_action = fractions_action spring ''1000'' ''s1'' 12"

definition sample_endpoint :: ftext where
  "sample_endpoint = [Val (JStr ''https://api.fostplus.be/recyclecms''), Lit ''/public/v1'']"

text \<open>A server whose single page lists the same collection twice.\<close>

definition repeating_server :: server where
  "repeating_server =
     always (ok (envelope [pmd_record, pmd_record,
                       collection_record ''pmd'' ''PMC'' ''2024-05-15T00:00:00.000Z''] 1))"

section \<open>The request primitives\<close>

lemma attempts_two:
  "attempts 2 srv m action data c = attempts (Suc (Suc 0)) srv m action data c"
  by (simp add: numeral_2_eq_2)

lemma get_ready:
  "session c \<Longrightarrow> get srv action c = attempts 2 srv GET action JNull c"
  by (simp add: get_def ensure_initialization_def)

lemma post_ready:
  "session c \<Longrightarrow> post srv action data c = attempts 2 srv POST action data c"
  by (simp add: post_def ensure_initialization_def)

lemma attempts_sent_le:
  "length (sent (snd (attempts n srv m action data c))) \<le> length (sent c) + n"
proof (induction n arbitrary: c)
  case 0
  show ?case by simp
next
  case (Suc n)
  show ?case
  proof (cases "action_url c action")
    case (Inl e)
    then show ?thesis by simp
  next
    case (Inr u)
    let ?c' = "c\<lparr>sent := sent c @ [\<lparr>verb = m, url = u, payload = data\<rparr>]\<rparr>"
    have "length (sent (snd (attempts n srv m action data ?c'))) \<le> length (sent ?c') + n"
      by (rule Suc.IH)
    then show ?thesis using Inr
      by (simp add: send_def split: option.splits)
  qed
qed

lemma post_always_ok:
  "session c \<Longrightarrow> endpoint c = Some e \<Longrightarrow>
   post (always (ok j)) a d c
     = (Inr j, c\<lparr>sent := sent c @ [\<lparr>verb = POST, url = e @ [Lit (''/'' @ a)], payload = d\<rparr>]\<rparr>)"
  by (simp add: post_ready attempts_two action_url_def send_def always_def ok_def response_json_def)

lemma get_always_ok:
  "session c \<Longrightarrow> endpoint c = Some e \<Longrightarrow>
   get (always (ok j)) a c
     = (Inr j, c\<lparr>sent := sent c @ [\<lparr>verb = GET, url = e @ [Lit (''/'' @ a)], payload = JNull\<rparr>]\<rparr>)"
  by (simp add: get_ready attempts_two action_url_def send_def always_def ok_def response_json_def)

text \<open>
  C7. On an initialized client, with \<open>g\<close> and \<open>p\<close> the GET and the POST request for an
  action: either primitive issues at most two requests; an attempt answered with status
  200 returns the parsed body at once (after one request, or after two when the first
  attempt had another status); two attempts with a status other than 200 return \<open>None\<close>,
  not an exception. The model has no clock: nothing stands between the two requests.
\<close>

theorem bounded_retry:
  assumes "session c" and "endpoint c = Some e"
  shows "let u = e @ [Lit (''/'' @ action)];
             g = \<lparr>verb = GET, url = u, payload = JNull\<rparr>;
             p = \<lparr>verb = POST, url = u, payload = data\<rparr>
         in length (sent (snd (get srv action c))) \<le> length (sent c) + 2
          \<and> length (sent (snd (post srv action data c))) \<le> length (sent c) + 2
          \<and> (srv (sent c) g = Some r \<and> status_code r = 200 \<and> body r = Some j
               \<longrightarrow> get srv action c = (Inr j, c\<lparr>sent := sent c @ [g]\<rparr>))
          \<and> (srv (sent c) p = Some r \<and> status_code r = 200 \<and> body r = Some j
               \<longrightarrow> post srv action data c = (Inr j, c\<lparr>sent := sent c @ [p]\<rparr>))
          \<and> (srv (sent c) g = Some r1 \<and> status_code r1 \<noteq> 200
               \<and> srv (sent c @ [g]) g = Some r2 \<and> status_code r2 = 200 \<and> body r2 = Some j
               \<longrightarrow> get srv action c = (Inr j, c\<lparr>sent := sent c @ [g, g]\<rparr>))
          \<and> (srv (sent c) p = Some r1 \<and> status_code r1 \<noteq> 200
               \<and> srv (sent c @ [p]) p = Some r2 \<and> status_code r2 = 200 \<and> body r2 = Some j
               \<longrightarrow> post srv action data c = (Inr j, c\<lparr>sent := sent c @ [p, p]\<rparr>))
          \<and> (srv (sent c) g = Some r1 \<and> status_code r1 \<noteq> 200
               \<and> srv (sent c @ [g]) g = Some r2 \<and> status_code r2 \<noteq> 200
               \<longrightarrow> get srv action c = (Inr JNull, c\<lparr>sent := sent c @ [g, g]\<rparr>))
          \<and> (srv (sent c) p = Some r1 \<and> status_code r1 \<noteq> 200
               \<and> srv (sent c @ [p]) p = Some r2 \<and> status_code r2 \<noteq> 200
               \<longrightarrow> post srv action data c = (Inr JNull, c\<lparr>sent := sent c @ [p, p]\<rparr>))"
proof -
  have g: "get srv action c = attempts (Suc (Suc 0)) srv GET action JNull c"
    using assms(1) by (simp add: get_ready attempts_two)
  have p: "post srv action data c = attempts (Suc (Suc 0)) srv POST action data c"
    using assms(1) by (simp add: post_ready attempts_two)
  have lg: "length (sent (snd (get srv action c))) \<le> length (sent c) + 2"
    using attempts_sent_le [of 2 srv GET action JNull c] assms(1) by (simp add: get_ready)
  have lp: "length (sent (snd (post srv action data c))) \<le> length (sent c) + 2"
    using attempts_sent_le [of 2 srv POST action data c] assms(1) by (simp add: post_ready)
  show ?thesis
    unfolding Let_def
    using lg lp assms(2)
    by (simp add: g p action_url_def send_def response_json_def)
qed

theorem bounded_retry_witness:
  "get (always unavailable) ''zipcodes?q=1000'' ready_client
     = (Inr JNull,
        ready_client\<lparr>sent :=
          [\<lparr>verb = GET, url = the (endpoint ready_client) @ [Lit ''/zipcodes?q=1000''],
            payload = JNull\<rparr>,
           \<lparr>verb = GET, url = the (endpoint ready_client) @ [Lit ''/zipcodes?q=1000''],
            payload = JNull\<rparr>]\<rparr>)
   \<and> post (always (ok (JInt 5))) ''streets?q=a'' JNull ready_client
     = (Inr (JInt 5),
        ready_client\<lparr>sent :=
          [\<lparr>verb = POST, url = the (endpoint ready_client) @ [Lit ''/streets?q=a''],
            payload = JNull\<rparr>]\<rparr>)"
proof -
  have s: "session ready_client" by (simp add: ready_client_def)
  have e: "endpoint ready_client = Some (the (endpoint ready_client))"
    by (simp add: ready_client_def)
  note a = bounded_retry [OF s e, where srv = "always unavailable"
      and action = "''zipcodes?q=1000''" and ?r1.0 = unavailable and ?r2.0 = unavailable,
      unfolded Let_def]
  note b = bounded_retry [OF s e, where srv = "always (ok (JInt 5))"
      and action = "''streets?q=a''" and data = JNull and r = "ok (JInt 5)" and j = "JInt 5",
      unfolded Let_def]
  have "sent ready_client = []" by (simp add: ready_client_def)
  with a b show ?thesis
    by (simp add: always_def unavailable_def ok_def)
qed

section \<open>Street resolution\<close>

lemma namedD:
  "named language i s \<Longrightarrow> \<exists>ns. getitem i ''names'' = Inr ns \<and> getitem ns language = Inr (JStr s)"
  by (auto simp: named_def ebind_def split: sum.splits)


lemma first_match_none:
  "\<forall>i\<in>set cands. \<exists>s. named language i s \<and> lower (strip s) \<noteq> street
   \<Longrightarrow> first_match strip lower language street cands = Inr JNull"
  by (induction cands) (auto simp: candidate_matches_def ebind_def dest!: namedD)


lemma pick_street_none:
  assumes "map_of kvs ''total'' = Some tot" and "ne_one tot"
    and "map_of kvs ''items'' = Some (JArr cands)"
    and "\<forall>i\<in>set cands. \<exists>s. named language i s \<and> lower (strip s) \<noteq> street"
  shows "pick_street strip lower language street (JObj kvs)
           = Inl (FostPlusApiException ''invalid_streetname'')"
  using assms(1-3) first_match_none [of cands language lower strip street, OF assms(4)]
  by (simp add: pick_street_def ebind_def)


lemma pick_street_single:
  assumes "map_of kvs ''total'' = Some tot" and "\<not> ne_one tot"
    and "map_of kvs ''items'' = Some (JArr (item # rest))"
    and "getitem item ''id'' = Inr i" and "getitem item ''names'' = Inr ns"
    and "getitem ns language = Inr nm"
  shows "pick_street strip lower language street (JObj kvs) = Inr (i, nm)"
  using assms by (simp add: pick_street_def ebind_def)

lemma post_sample:
  "post (always (ok j)) a JNull ready_client = (Inr j, snd (post (always (ok j)) a JNull ready_client))"
proof -
  have s: "session ready_client" by (simp add: ready_client_def)
  have e: "endpoint ready_client = Some (the (endpoint ready_client))"
    by (simp add: ready_client_def)
  show ?thesis by (simp add: post_always_ok [OF s e])
qed

lemma street_item_named: "named ''fr'' (street_item i nm) nm"
  by (simp add: named_def street_item_def ebind_def)

lemma street_item_id: "getitem (street_item i nm) ''id'' = Inr (JStr i)"
  by (simp add: street_item_def)

lemma streets_response_items: "map_of (streets_response n cs) ''items'' = Some (JArr cs)"
  by (simp add: streets_response_def)

lemma streets_response_total: "map_of (streets_response n cs) ''total'' = Some (JInt n)"
  by (simp add: streets_response_def)

lemma haute_basse: "ascii_lower (ascii_strip ''Rue Haute'') \<noteq> ascii_lower (ascii_strip ''Rue Basse'')"
  by code_simp

lemma hautefeuille_basse:
  "ascii_lower (ascii_strip ''Rue Hautefeuille'') \<noteq> ascii_lower (ascii_strip ''Rue Basse'')"
  by code_simp

text \<open>
  C5. When the POST for a street query returns an object whose \<open>total\<close> is 1, \<open>get_street\<close>
  returns the id and the name in the language of the first listed item; nothing relates
  that name to the queried street.
\<close>

theorem get_street_single_result:
  assumes "post srv (street_action (lower (strip street)) zip_code_id) JNull c
             = (Inr (JObj kvs), c')"
    and "map_of kvs ''total'' = Some (JInt 1)"
    and "map_of kvs ''items'' = Some (JArr (item # rest))"
    and "getitem item ''id'' = Inr i"
    and "getitem item ''names'' = Inr ns"
    and "getitem ns language = Inr nm"
  shows "get_street srv strip lower street zip_code_id language c = (Inr (i, nm), c')"
proof -
  have "pick_street strip lower language (lower (strip street)) (JObj kvs) = Inr (i, nm)"
    using assms(2) _ assms(3-6) by (rule pick_street_single) simp
  with assms(1) show ?thesis by (simp add: get_street_def Let_def)
qed

theorem get_street_single_result_witness:
  "get_street (always (ok (JObj (streets_response 1 [street_item ''s1'' ''Rue Haute''])))) 
      ascii_strip ascii_lower ''Rue Basse'' ''1000'' ''fr'' ready_client
     = (Inr (JStr ''s1'', JStr ''Rue Haute''),
        snd (post (always (ok (JObj (streets_response 1 [street_item ''s1'' ''Rue Haute'']))))
               (street_action (ascii_lower (ascii_strip ''Rue Basse'')) ''1000'') JNull
               ready_client))
   \<and> ascii_lower (ascii_strip ''Rue Haute'') \<noteq> ascii_lower (ascii_strip ''Rue Basse'')"
proof -
  have ns: "getitem (street_item ''s1'' ''Rue Haute'') ''names'' = Inr (JObj [(''fr'', JStr ''Rue Haute'')])"
    by (simp add: street_item_def)
  have nm: "getitem (JObj [(''fr'', JStr ''Rue Haute'')]) ''fr'' = Inr (JStr ''Rue Haute'')"
    by simp
  have "get_street (always (ok (JObj (streets_response 1 [street_item ''s1'' ''Rue Haute'']))))
      ascii_strip ascii_lower ''Rue Basse'' ''1000'' ''fr'' ready_client
     = (Inr (JStr ''s1'', JStr ''Rue Haute''),
        snd (post (always (ok (JObj (streets_response 1 [street_item ''s1'' ''Rue Haute'']))))
               (street_action (ascii_lower (ascii_strip ''Rue Basse'')) ''1000'') JNull
               ready_client))"
    by (rule get_street_single_result [where strip = ascii_strip and lower = ascii_lower
          and street = "''Rue Basse''" and rest = "[]",
          OF post_sample streets_response_total streets_response_items street_item_id ns nm])
  with haute_basse show ?thesis by (rule conjI [rotated])
qed

text \<open>
  Against C6 as stated: the response lists two candidates, neither named as the query,
  and declares a \<open>total\<close> of 1; \<open>get_street\<close> returns the first of them and raises
  nothing. With the second candidate named as the query, it is still the first that is
  returned.
\<close>

theorem declared_total_one_skips_matching:
  "fst (get_street (always (ok (JObj (streets_response 1
          [street_item ''s1'' ''Rue Haute'', street_item ''s2'' ''Rue Hautefeuille''])))) 
        ascii_strip ascii_lower ''Rue Basse'' ''1000'' ''fr'' ready_client)
     = Inr (JStr ''s1'', JStr ''Rue Haute'')
   \<and> ascii_lower (ascii_strip ''Rue Haute'') \<noteq> ascii_lower (ascii_strip ''Rue Basse'')
   \<and> ascii_lower (ascii_strip ''Rue Hautefeuille'') \<noteq> ascii_lower (ascii_strip ''Rue Basse'')
   \<and> fst (get_street (always (ok (JObj (streets_response 1
          [street_item ''s1'' ''Rue Haute'', street_item ''s2'' ''Rue Basse''])))) 
        ascii_strip ascii_lower ''Rue Basse'' ''1000'' ''fr'' ready_client)
     = Inr (JStr ''s1'', JStr ''Rue Haute'')"
proof -
  have ns: "getitem (street_item ''s1'' ''Rue Haute'') ''names'' = Inr (JObj [(''fr'', JStr ''Rue Haute'')])"
    by (simp add: street_item_def)
  have nm: "getitem (JObj [(''fr'', JStr ''Rue Haute'')]) ''fr'' = Inr (JStr ''Rue Haute'')"
    by simp
  have p: "pick_street ascii_strip ascii_lower ''fr'' st
             (JObj (streets_response 1 (street_item ''s1'' ''Rue Haute'' # more)))
           = Inr (JStr ''s1'', JStr ''Rue Haute'')" for st more
    using streets_response_total _ streets_response_items street_item_id ns nm
    by (rule pick_street_single) simp
  have g: "fst (get_street (always (ok (JObj (streets_response 1
               (street_item ''s1'' ''Rue Haute'' # more))))) ascii_strip ascii_lower
             ''Rue Basse'' ''1000'' ''fr'' ready_client)
           = Inr (JStr ''s1'', JStr ''Rue Haute'')" for more
  proof -
    define c' where "c' = snd (post (always (ok (JObj (streets_response 1
               (street_item ''s1'' ''Rue Haute'' # more)))))
             (street_action (ascii_lower (ascii_strip ''Rue Basse'')) ''1000'') JNull ready_client)"
    have q: "post (always (ok (JObj (streets_response 1
               (street_item ''s1'' ''Rue Haute'' # more)))))
             (street_action (ascii_lower (ascii_strip ''Rue Basse'')) ''1000'') JNull ready_client
           = (Inr (JObj (streets_response 1 (street_item ''s1'' ''Rue Haute'' # more))), c')"
      unfolding c'_def by (rule post_sample)
    show ?thesis by (simp add: get_street_def Let_def p q)
  qed
  from g [of "[street_item ''s2'' ''Rue Hautefeuille'']"] g [of "[street_item ''s2'' ''Rue Basse'']"]
    haute_basse hautefeuille_basse
  show ?thesis by blast
qed



text \<open>
  C10. When the POST for a street query returns an object whose declared \<open>total\<close> is not
  1: with an empty candidate list \<open>get_street\<close> raises \<open>FostPlusApiException\<close> with the code
  \<open>invalid_streetname\<close>, as it does with a single listed candidate whose name differs
  from the query; with a declared \<open>total\<close> of 1 the first listed item is returned however
  many items are listed. The branch follows the declared total, not the number of items.
\<close>

theorem get_street_zero_candidates:
  assumes "post srv (street_action (lower (strip street)) zip_code_id) JNull c
             = (Inr (JObj kvs), c')"
    and "map_of kvs ''total'' = Some tot"
    and "map_of kvs ''items'' = Some (JArr cands)"
  shows "(ne_one tot \<and> cands = []
            \<longrightarrow> (\<exists>e. get_street srv strip lower street zip_code_id language c = (Inl e, c')
                      \<and> e = FostPlusApiException ''invalid_streetname''
                      \<and> code e = Some ''invalid_streetname''))
       \<and> (ne_one tot \<and> cands = [item] \<and> named language item s
            \<and> lower (strip s) \<noteq> lower (strip street)
            \<longrightarrow> get_street srv strip lower street zip_code_id language c
                  = (Inl (FostPlusApiException ''invalid_streetname''), c'))
       \<and> (\<not> ne_one tot \<and> cands = item # rest \<and> named language item s
            \<and> getitem item ''id'' = Inr i
            \<longrightarrow> get_street srv strip lower street zip_code_id language c
                  = (Inr (i, JStr s), c'))"
proof -
  have u: "get_street srv strip lower street zip_code_id language c
             = (pick_street strip lower language (lower (strip street)) (JObj kvs), c')"
    using assms(1) by (simp add: get_street_def Let_def)
  show ?thesis
  proof (intro conjI impI)
    assume a: "ne_one tot \<and> cands = []"
    have "pick_street strip lower language (lower (strip street)) (JObj kvs)
                 = Inl (FostPlusApiException ''invalid_streetname'')"
      using assms(2) _ assms(3) by (rule pick_street_none) (use a in simp_all)
    then show "\<exists>e. get_street srv strip lower street zip_code_id language c = (Inl e, c')
                      \<and> e = FostPlusApiException ''invalid_streetname''
                      \<and> code e = Some ''invalid_streetname''"
      using u by simp
  next
    assume a: "ne_one tot \<and> cands = [item] \<and> named language item s
            \<and> lower (strip s) \<noteq> lower (strip street)"
    have "pick_street strip lower language (lower (strip street)) (JObj kvs)
                 = Inl (FostPlusApiException ''invalid_streetname'')"
      using assms(2) _ assms(3) by (rule pick_street_none) (use a in auto)
    then show "get_street srv strip lower street zip_code_id language c
                  = (Inl (FostPlusApiException ''invalid_streetname''), c')"
      using u by simp
  next
    assume a: "\<not> ne_one tot \<and> cands = item # rest \<and> named language item s
            \<and> getitem item ''id'' = Inr i"
    then obtain ns where ns: "getitem item ''names'' = Inr ns" "getitem ns language = Inr (JStr s)"
      by (auto dest!: namedD)
    from a have items: "map_of kvs ''items'' = Some (JArr (item # rest))"
      using assms(3) by simp
    have "pick_street strip lower language (lower (strip street)) (JObj kvs) = Inr (i, JStr s)"
      using assms(2) _ items _ ns by (rule pick_street_single) (use a in simp_all)
    then show "get_street srv strip lower street zip_code_id language c = (Inr (i, JStr s), c')"
      using u by simp
  qed
qed

theorem get_street_zero_candidates_witness:
  "get_street (always (ok (JObj (streets_response 0 [])))) ascii_strip ascii_lower
        ''Rue Basse'' ''1000'' ''fr'' ready_client
     = (Inl (FostPlusApiException ''invalid_streetname''),
        snd (post (always (ok (JObj (streets_response 0 []))))
             (street_action (ascii_lower (ascii_strip ''Rue Basse'')) ''1000'') JNull ready_client))
   \<and> get_street (always (ok (JObj (streets_response 3 [street_item ''s1'' ''Rue Haute''])))) 
        ascii_strip ascii_lower ''Rue Basse'' ''1000'' ''fr'' ready_client
     = (Inl (FostPlusApiException ''invalid_streetname''),
        snd (post (always (ok (JObj (streets_response 3 [street_item ''s1'' ''Rue Haute'']))))
             (street_action (ascii_lower (ascii_strip ''Rue Basse'')) ''1000'') JNull ready_client))
   \<and> get_street (always (ok (JObj (streets_response 1
          [street_item ''s1'' ''Rue Haute'', street_item ''s2'' ''Rue Basse'']))))
        ascii_strip ascii_lower ''Rue Basse'' ''1000'' ''fr'' ready_client
     = (Inr (JStr ''s1'', JStr ''Rue Haute''),
        snd (post (always (ok (JObj (streets_response 1
               [street_item ''s1'' ''Rue Haute'', street_item ''s2'' ''Rue Basse'']))))
             (street_action (ascii_lower (ascii_strip ''Rue Basse'')) ''1000'') JNull ready_client))"
proof -
  let ?a = "street_item ''s1'' ''Rue Haute''"
  let ?b = "street_item ''s2'' ''Rue Basse''"
  note t = get_street_zero_candidates [where strip = ascii_strip and lower = ascii_lower
      and street = "''Rue Basse''" and language = "''fr''" and zip_code_id = "''1000''",
      OF post_sample streets_response_total streets_response_items]
  note t0 = t [of 0 "[]"]
  note t3 = t [of 3 "[?a]" ?a "''Rue Haute''"]
  note t1 = t [of 1 "[?a, ?b]" ?a "''Rue Haute''" "[?b]" "JStr ''s1''"]
  have zero: "get_street (always (ok (JObj (streets_response 0 [])))) ascii_strip ascii_lower
        ''Rue Basse'' ''1000'' ''fr'' ready_client
     = (Inl (FostPlusApiException ''invalid_streetname''),
        snd (post (always (ok (JObj (streets_response 0 []))))
             (street_action (ascii_lower (ascii_strip ''Rue Basse'')) ''1000'') JNull ready_client))"
    using t0 by simp
  have one: "get_street (always (ok (JObj (streets_response 3 [?a])))) ascii_strip ascii_lower
        ''Rue Basse'' ''1000'' ''fr'' ready_client
     = (Inl (FostPlusApiException ''invalid_streetname''),
        snd (post (always (ok (JObj (streets_response 3 [?a]))))
             (street_action (ascii_lower (ascii_strip ''Rue Basse'')) ''1000'') JNull ready_client))"
    using t3
      street_item_named [of "''s1''" "''Rue Haute''"] haute_basse by simp
  have two: "get_street (always (ok (JObj (streets_response 1 [?a, ?b])))) ascii_strip ascii_lower
        ''Rue Basse'' ''1000'' ''fr'' ready_client
     = (Inr (JStr ''s1'', JStr ''Rue Haute''),
        snd (post (always (ok (JObj (streets_response 1 [?a, ?b]))))
             (street_action (ascii_lower (ascii_strip ''Rue Basse'')) ''1000'') JNull ready_client))"
    using t1
      street_item_named [of "''s1''" "''Rue Haute''"] street_item_id [of "''s1''" "''Rue Haute''"]
    by simp
  from zero one two show ?thesis by simp
qed

section \<open>Pagination: what the loader returns\<close>

lemma map_of_key: "map_of kvs k = Some v \<Longrightarrow> k \<in> fst ` set kvs"
  by (metis domI dom_map_of_conv_image_fst)

lemma absorb_good:
  assumes "map_of kvs ''items'' = Some (JArr xs)" and "map_of kvs ''pages'' = Some (JInt P)"
  shows "absorb_page (JObj kvs) acc k = Inr (k + 1 > P, acc @ xs, k + 1)"
proof -
  have ne: "kvs \<noteq> []" using assms(1) by auto
  have "page_unusable (JObj kvs) = Inr False"
    using ne map_of_key [OF assms(1)] map_of_key [OF assms(2)]
    by (simp add: page_unusable_def ebind_def)
  then show ?thesis using assms by (simp add: absorb_page_def ebind_def)
qed


lemma get_served:
  assumes "session c" and "endpoint c = Some e"
    and "srv (sent c) (page_request e action psize k)
           = Some \<lparr>status_code = 200, body = Some j\<rparr>"
  shows "get srv (page_action action k psize) c
           = (Inr j, c\<lparr>sent := sent c @ [page_request e action psize k]\<rparr>)"
  using assms
  by (simp add: get_ready attempts_two action_url_def send_def response_json_def
      page_request_def)

lemma loop_step:
  assumes "session c" and "endpoint c = Some e" and "serves srv e action psize pg P k"
  shows "load_all_loop srv action psize acc k c
           = (if k + 1 > P
              then Some (Inr (acc @ pg k), c\<lparr>sent := sent c @ [page_request e action psize k]\<rparr>)
              else load_all_loop srv action psize (acc @ pg k) (k + 1)
                     (c\<lparr>sent := sent c @ [page_request e action psize k]\<rparr>))"
proof -
  from assms(3) obtain kvs where
    s: "srv (sent c) (page_request e action psize k)
          = Some \<lparr>status_code = 200, body = Some (JObj kvs)\<rparr>"
    and i: "map_of kvs ''items'' = Some (JArr (pg k))"
    and p: "map_of kvs ''pages'' = Some (JInt P)"
    unfolding serves_def by blast
  have g: "get srv (page_action action k psize) c
             = (Inr (JObj kvs), c\<lparr>sent := sent c @ [page_request e action psize k]\<rparr>)"
    using assms(1,2) s by (rule get_served)
  show ?thesis
    by (subst load_all_loop.simps) (simp add: g absorb_good [OF i p])
qed

lemma loop_run:
  assumes "\<forall>k. 1 \<le> k \<and> k \<le> P \<longrightarrow> serves srv e action psize pg P k"
  shows "session c \<Longrightarrow> endpoint c = Some e \<Longrightarrow> 1 \<le> k \<Longrightarrow> k \<le> P \<Longrightarrow>
         load_all_loop srv action psize acc k c
           = Some (Inr (acc @ concat (map pg [k..P])),
                   c\<lparr>sent := sent c @ map (page_request e action psize) [k..P]\<rparr>)"
proof (induction "nat (P - k)" arbitrary: k acc c)
  case 0
  then have kP: "k = P" by simp
  have sv: "serves srv e action psize pg P k" using assms 0 by simp
  show ?case
    using loop_step [OF "0.prems"(1,2) sv, of acc] kP by simp
next
  case (Suc n)
  then have lt: "k < P" by simp
  have sv: "serves srv e action psize pg P k" using assms Suc.prems by simp
  let ?c = "c\<lparr>sent := sent c @ [page_request e action psize k]\<rparr>"
  have n: "n = nat (P - (k + 1))" using Suc.hyps(2) by simp
  have ih: "load_all_loop srv action psize (acc @ pg k) (k + 1) ?c
           = Some (Inr ((acc @ pg k) @ concat (map pg [k + 1..P])),
                   ?c\<lparr>sent := sent ?c @ map (page_request e action psize) [k + 1..P]\<rparr>)"
    using Suc.prems lt by (intro Suc.hyps(1) [OF n]) simp_all
  have up: "[k..P] = k # [k + 1..P]" using lt by (simp add: upto_rec1)
  show ?case
    using loop_step [OF Suc.prems(1,2) sv, of acc] lt ih by (simp add: up)
qed

text \<open>
  C2. On an initialized client, when the server answers the request for every page
  \<open>1 \<le> k \<le> P\<close> of an action with status 200 and an object whose \<open>items\<close> is the list
  \<open>pg k\<close> and whose \<open>pages\<close> is \<open>P\<close> (with \<open>P\<close> at least 1), \<open>load_all\<close> returns: the
  result is the concatenation of \<open>pg 1\<close>, ..., \<open>pg P\<close> in that order, and the requests it
  issued are exactly those for the pages 1, ..., \<open>P\<close>, one each.
\<close>

theorem load_all_complete:
  assumes "session c" and "endpoint c = Some e" and "1 \<le> P"
    and "\<forall>k. 1 \<le> k \<and> k \<le> P \<longrightarrow> serves srv e action psize pg P k"
  shows "load_all srv action psize c
           = Some (Inr (concat (map pg [1..P])),
                   c\<lparr>sent := sent c @ map (page_request e action psize) [1..P]\<rparr>)"
  using loop_run [OF assms(4) assms(1,2) _ assms(3), where acc = "[]"]
  by (simp add: load_all_def)



lemma ready_session: "session ready_client"
  by (simp add: ready_client_def)

lemma ready_endpoint: "endpoint ready_client = Some sample_endpoint"
  by (simp add: ready_client_def sample_endpoint_def)

lemma ready_sent: "sent ready_client = []"
  by (simp add: ready_client_def)

lemma asks1: "asks_page2 (page_request sample_endpoint sample_action 100 1) = False"
  by code_simp

lemma asks2: "asks_page2 (page_request sample_endpoint sample_action 100 2) = True"
  by code_simp


lemma split_serves:
  "\<forall>k. 1 \<le> k \<and> k \<le> 2 \<longrightarrow> serves split_server sample_endpoint sample_action 100 sample_pages 2 k"
proof (intro allI impI)
  fix k :: int assume "1 \<le> k \<and> k \<le> 2"
  then consider "k = 1" | "k = 2" by force
  then show "serves split_server sample_endpoint sample_action 100 sample_pages 2 k"
    by cases (simp_all add: serves_def split_server_def asks1 asks2 ok_def envelope_def sample_pages_def)
qed


lemma upto_1_2: "[1..2::int] = [1, 2]"
  by code_simp


theorem load_all_complete_witness:
  "load_all split_server sample_action 100 ready_client
     = Some (Inr [pmd_record, glass_record],
             ready_client\<lparr>sent := [page_request sample_endpoint sample_action 100 1,
                                    page_request sample_endpoint sample_action 100 2]\<rparr>)"
  using load_all_complete [OF ready_session ready_endpoint _ split_serves]
  by (simp add: upto_1_2 sample_pages_def ready_sent)




section \<open>Fractions and the calendar: what the outputs hold\<close>


lemma set_update_cases:
  "p \<in> set (AList.update k v al) \<Longrightarrow> p = (k, v) \<or> p \<in> set al"
  by (induction al) (auto split: if_splits)

lemma allowed_id_Some: "allowed_id T v = Some k \<Longrightarrow> k \<in> set T \<and> v = JStr k"
  by (auto simp: allowed_id_def split: json.splits if_splits)

lemma calendar_ok_add_date:
  assumes "calendar_ok T r" and "k \<in> set T"
  shows "calendar_ok T (add_date k d r)"
proof -
  define f where "f = (case map_of r k of None \<Rightarrow> [] | Some ds \<Rightarrow> ds)"
  define v where "v = (if d \<in> set f then f else f @ [d])"
  have "distinct f"
  proof (cases "map_of r k")
    case None
    then show ?thesis by (simp add: f_def)
  next
    case (Some ds)
    then have "(k, ds) \<in> set r" by (rule map_of_SomeD)
    with assms(1) have "distinct ds" by (auto simp: calendar_ok_def)
    with Some show ?thesis by (simp add: f_def)
  qed
  then have dv: "distinct v" by (simp add: v_def)
  have eq: "add_date k d r = AList.update k v r"
    unfolding add_date_def Let_def f_def v_def by (rule refl)
  show ?thesis
    unfolding eq calendar_ok_def
  proof
    fix p assume "p \<in> set (AList.update k v r)"
    then have "p = (k, v) \<or> p \<in> set r" by (rule set_update_cases)
    then show "fst p \<in> set T \<and> distinct (snd p)"
      using dv assms by (auto simp: calendar_ok_def)
  qed
qed

lemma collect_item_cases:
  assumes "collect_item T item r = Inr r'"
  shows "r' = r \<or> (\<exists>k d. k \<in> set T \<and> r' = add_date k d r)"
proof -
  from assms obtain ex rb where
    rb: "dict_get item ''exception'' (JObj []) = Inr ex" "dict_get ex ''replacedBy'' JNull = Inr rb"
    by (auto simp: collect_item_def ebind_def split: sum.splits)
  show ?thesis
  proof (cases "truthy rb")
    case True
    with assms rb show ?thesis by (simp add: collect_item_def ebind_def)
  next
    case False
    with assms rb obtain fid where fid: "fraction_id_of item = Inr fid"
      by (auto simp: collect_item_def ebind_def split: sum.splits)
    show ?thesis
    proof (cases "allowed_id T fid")
      case None
      with assms rb False fid show ?thesis by (simp add: collect_item_def ebind_def)
    next
      case (Some k)
      then have k: "k \<in> set T" by (auto dest: allowed_id_Some)
      from assms rb False fid Some obtain t parsed where
        "parse_timestamp t = Inr parsed"
        "r' = (case parsed of None \<Rightarrow> r | Some d \<Rightarrow> add_date k d r)"
        by (auto simp: collect_item_def ebind_def split: sum.splits json.splits option.splits)
      with k show ?thesis by (cases parsed) auto
    qed
  qed
qed

lemma collect_item_ok:
  assumes "collect_item T item r = Inr r'" and "calendar_ok T r"
  shows "calendar_ok T r'"
  using collect_item_cases [OF assms(1)] assms(2) calendar_ok_add_date [of T r] by auto

lemma collect_all_ok:
  "collect_all T items r = Inr r' \<Longrightarrow> calendar_ok T r \<Longrightarrow> calendar_ok T r'"
proof (induction items arbitrary: r)
  case Nil
  then show ?case by simp
next
  case (Cons item items)
  then show ?case
    by (auto split: sum.splits dest: collect_item_ok)
qed

lemma get_collections_ok:
  assumes "get_collections srv T now zip_code_id street_id house_number from_date until_date psize c
           = (Inr result, c')"
  shows "calendar_ok T result"
proof -
  have "calendar_ok T []" by (simp add: calendar_ok_def)
  then show ?thesis
    using assms
    by (auto simp: get_collections_def Let_def ebind_def
        split: sum.splits prod.splits option.splits dest: collect_all_ok)
qed

text \<open>
  C8. In the calendar \<open>get_collections\<close> returns, no date list holds a date twice,
  whatever records the response lists: a date is added to a fraction's list only when
  the list does not hold it yet.
\<close>

theorem get_collections_dates_distinct:
  assumes "get_collections srv T now zip_code_id street_id house_number from_date until_date psize c
           = (Inr result, c')"
    and "(k, ds) \<in> set result"
  shows "distinct ds"
  using get_collections_ok [OF assms(1)] assms(2) by (auto simp: calendar_ok_def)









lemma pair_eq: "fst p = a \<Longrightarrow> p = (a, snd p)"
  by (cases p) simp

lemma no_id_serves:
  "\<forall>k. 1 \<le> k \<and> k \<le> 1
       \<longrightarrow> serves no_id_server sample_endpoint sample_action 100
             (\<lambda>k. [no_id_record, pmd_record]) 1 k"
  by (simp add: serves_def no_id_server_def always_def ok_def envelope_def)

lemma no_id_fractions:
  "map_option fst (get_fractions no_id_server T spring ''1000'' ''s1'' 12 ''fr'' 100 ready_client)
     = Some (ebind (traverse (fraction_entry T ''fr'') [no_id_record, pmd_record])
               (\<lambda>entries. Inr (build_dict (List.map_filter id entries))))"
  using loop_run [OF no_id_serves ready_session ready_endpoint, where k = 1 and acc = "[]"]
  by (simp add: get_fractions_def load_all_def sample_action_def)

lemma no_id_entries:
  "ebind (traverse (fraction_entry [''pmd''] ''fr'') [no_id_record, pmd_record])
     (\<lambda>entries. Inr (build_dict (List.map_filter id entries)))
   = Inl KeyError"
  by code_simp

text \<open>
  Against C9 as stated: the first record's logo carries no id. \<open>get_fractions\<close> does not
  exclude it: reading the id raises \<open>KeyError\<close> and no mapping is returned, although the
  next record is a recognized one. On the same response \<open>get_collections\<close> skips the
  record and returns the calendar of the other one.
\<close>

theorem missing_logo_id_raises:
  "map_option fst (get_fractions no_id_server [''pmd''] spring ''1000'' ''s1'' 12 ''fr'' 100
      ready_client) = Some (Inl KeyError)
   \<and> fst (get_collections no_id_server [''pmd''] spring ''1000'' ''s1'' 12 None None 100
        ready_client)
     = Inr [(''pmd'', [\<lparr>year = 2024, month = 5, day = 1\<rparr>])]"
proof -
  have a: "map_option fst (get_fractions no_id_server [''pmd''] spring ''1000'' ''s1'' 12 ''fr'' 100
      ready_client) = Some (Inl KeyError)"
    by (simp only: no_id_fractions no_id_entries)
  have b: "fst (get_collections no_id_server [''pmd''] spring ''1000'' ''s1'' 12 None None 100
        ready_client)
     = Inr [(''pmd'', [\<lparr>year = 2024, month = 5, day = 1\<rparr>])]"
    by code_simp
  from a b show ?thesis by (rule conjI)
qed

lemma repeating_run:
  "fst (get_collections repeating_server [''pmd''] spring ''1000'' ''s1'' 12 None None 100
          ready_client)
     = Inr [(''pmd'', [\<lparr>year = 2024, month = 5, day = 1\<rparr>, \<lparr>year = 2024, month = 5, day = 15\<rparr>])]"
  by code_simp

theorem get_collections_dates_distinct_witness:
  "fst (get_collections repeating_server [''pmd''] spring ''1000'' ''s1'' 12 None None 100
          ready_client)
     = Inr [(''pmd'', [\<lparr>year = 2024, month = 5, day = 1\<rparr>, \<lparr>year = 2024, month = 5, day = 15\<rparr>])]
   \<and> distinct [\<lparr>year = 2024, month = 5, day = 1\<rparr>, \<lparr>year = 2024, month = 5, day = 15\<rparr>]"
proof -
  note run = pair_eq [OF repeating_run]
  have "distinct [\<lparr>year = 2024, month = 5, day = 1\<rparr>, \<lparr>year = 2024, month = 5, day = 15\<rparr>]"
    by (rule get_collections_dates_distinct [OF run, of "''pmd''"]) simp
  with repeating_run show ?thesis by (rule conjI)
qed

lemma split_load_all:
  "load_all split_server sample_action 100 ready_client
     = Some (Inr [pmd_record, glass_record],
             ready_client\<lparr>sent := [page_request sample_endpoint sample_action 100 1,
                                    page_request sample_endpoint sample_action 100 2]\<rparr>)"
  using loop_run [OF split_serves ready_session ready_endpoint, where k = 1 and acc = "[]"]
  by (simp add: load_all_def upto_1_2 sample_pages_def ready_sent)

lemma split_fractions:
  "get_fractions split_server T spring ''1000'' ''s1'' 12 ''fr'' 100 ready_client
     = Some (ebind (traverse (fraction_entry T ''fr'') [pmd_record, glass_record])
               (\<lambda>entries. Inr (build_dict (List.map_filter id entries))),
             ready_client\<lparr>sent := [page_request sample_endpoint sample_action 100 1,
                                    page_request sample_endpoint sample_action 100 2]\<rparr>)"
  using split_load_all by (simp add: get_fractions_def sample_action_def)


lemma split_entries_both:
  "ebind (traverse (fraction_entry [''pmd'', ''glass''] ''fr'') [pmd_record, glass_record])
     (\<lambda>entries. Inr (build_dict (List.map_filter id entries)))
   = Inr [(''pmd'', JStr ''#2B5DA8'', JStr ''PMC''), (''glass'', JStr ''#2B5DA8'', JStr ''Verre'')]"
  by code_simp



text \<open>
  C3, on the code: a server splits the window's records over two declared pages, a PMD
  collection on page 1 and a glass collection on page 2, both inside the window and both
  recognized. \<open>get_collections\<close> sends one request and returns the PMD date only; on the
  same server \<open>get_fractions\<close>, which goes through \<open>load_all\<close>, sees both fractions.
\<close>

theorem get_collections_first_page_only:
  "fst (get_collections split_server [''pmd'', ''glass''] spring ''1000'' ''s1'' 12 None None 100
          ready_client)
     = Inr [(''pmd'', [\<lparr>year = 2024, month = 5, day = 1\<rparr>])]
   \<and> length (sent (snd (get_collections split_server [''pmd'', ''glass''] spring ''1000'' ''s1'' 12
          None None 100 ready_client))) = 1
   \<and> map_option fst (get_fractions split_server [''pmd'', ''glass''] spring ''1000'' ''s1'' 12
          ''fr'' 100 ready_client)
     = Some (Inr [(''pmd'', JStr ''#2B5DA8'', JStr ''PMC''),
                  (''glass'', JStr ''#2B5DA8'', JStr ''Verre'')])"
proof -
  have a: "fst (get_collections split_server [''pmd'', ''glass''] spring ''1000'' ''s1'' 12 None None
            100 ready_client)
     = Inr [(''pmd'', [\<lparr>year = 2024, month = 5, day = 1\<rparr>])]"
    by code_simp
  have b: "length (sent (snd (get_collections split_server [''pmd'', ''glass''] spring ''1000'' ''s1''
            12 None None 100 ready_client))) = 1"
    by code_simp
  have c: "map_option fst (get_fractions split_server [''pmd'', ''glass''] spring ''1000'' ''s1'' 12
          ''fr'' 100 ready_client)
     = Some (Inr [(''pmd'', JStr ''#2B5DA8'', JStr ''PMC''),
                  (''glass'', JStr ''#2B5DA8'', JStr ''Verre'')])"
    by (simp only: split_fractions split_entries_both option.map fst_conv)
  from a b c show ?thesis by blast
qed

section \<open>Which exceptions the operations raise\<close>

lemma raises_only_Inr [simp]: "raises_only C (Inr x)"
  by (simp add: raises_only_def)

lemma raises_only_Inl [simp]:
  "raises_only C (Inl e) = (case code e of None \<Rightarrow> True | Some c \<Rightarrow> c \<in> C)"
  by (simp add: raises_only_def)

lemma raises_only_ebind:
  "raises_only C m \<Longrightarrow> (\<And>v. raises_only C (f v)) \<Longrightarrow> raises_only C (ebind m f)"
  by (cases m) (simp_all add: ebind_def)

lemma raises_only_getitem [simp]: "raises_only C (getitem j k)"
  by (cases j) (simp_all split: option.splits)

lemma raises_only_getitem0 [simp]: "raises_only C (getitem0 j)"
  by (cases j rule: getitem0.cases) (simp_all split: list.splits)

lemma raises_only_dict_get [simp]: "raises_only C (dict_get j k d)"
  by (cases j) (simp_all split: option.splits)

lemma raises_only_contains [simp]: "raises_only C (contains k j)"
  by (cases j) simp_all

lemma raises_only_iterate [simp]: "raises_only C (iterate j)"
  by (cases j) simp_all

lemma raises_only_int_gt [simp]: "raises_only C (int_gt n j)"
  by (cases j) simp_all

lemma raises_only_str_of [simp]: "raises_only C (str_of j)"
  by (cases j) simp_all

lemma raises_only_dict_key [simp]: "raises_only C (dict_key j)"
  by (cases j) simp_all

lemma raises_only_item_at [simp]: "raises_only C (item_at xs i)"
  by (simp add: item_at_def)

lemma raises_only_py_int [simp]: "raises_only C (py_int s)"
  by (simp add: py_int_def Let_def)

lemma raises_only_make_date [simp]: "raises_only C (make_date y m d)"
  by (simp add: make_date_def)

lemma raises_only_next_day [simp]: "raises_only C (next_day d)"
  by (simp add: next_day_def)

lemma raises_only_add_days [simp]: "raises_only C (add_days n d)"
proof (induction n arbitrary: d)
  case 0
  show ?case by simp
next
  case (Suc n)
  show ?case
  proof (cases "next_day d")
    case (Inl e)
    with raises_only_next_day [of C d] show ?thesis by simp
  next
    case (Inr d')
    with Suc [of d'] show ?thesis by simp
  qed
qed

lemma raises_only_response_json [simp]: "raises_only C (response_json r)"
  by (simp add: response_json_def split: option.splits)

lemma raises_only_traverse:
  "(\<And>x. raises_only C (f x)) \<Longrightarrow> raises_only C (traverse f xs)"
proof (induction xs)
  case Nil
  show ?case by simp
next
  case (Cons x xs)
  from Cons.prems have "raises_only C (f x)" .
  moreover from Cons have "raises_only C (traverse f xs)" by simp
  ultimately show ?case
    by (cases "f x"; cases "traverse f xs") simp_all
qed

lemma raises_only_if:
  "(b \<Longrightarrow> raises_only C x) \<Longrightarrow> (\<not> b \<Longrightarrow> raises_only C y) \<Longrightarrow> raises_only C (if b then x else y)"
  by simp






lemma raises_only_page_unusable [simp]: "raises_only C (page_unusable r)"
  unfolding page_unusable_def
  by (intro raises_only_if raises_only_ebind) simp_all



lemma raises_only_zip_item [simp]: "raises_only C (zip_item language item)"
  unfolding zip_item_def zip_entry_def
  by (intro raises_only_ebind raises_only_traverse) simp_all

lemma raises_only_join_truthy [simp]: "raises_only C (join_truthy sep xs)"
  unfolding join_truthy_def
  by (intro raises_only_ebind raises_only_traverse) simp_all



lemma raises_only_fraction_entry [simp]: "raises_only C (fraction_entry T language f)"
proof -
  have a: "raises_only C (case allowed_id T logo_id of None \<Rightarrow> Inr None
            | Some k \<Rightarrow>
                ebind (getitem fr ''color'') (\<lambda>color.
                ebind (getitem fr ''name'') (\<lambda>names.
                ebind (getitem names language) (\<lambda>nm. Inr (Some (k, color, nm))))))"
    for logo_id fr
    by (cases "allowed_id T logo_id") (auto intro!: raises_only_ebind)
  show ?thesis
    unfolding fraction_entry_def
    by (intro raises_only_ebind raises_only_if a) simp_all
qed

lemma raises_only_fraction_id_of [simp]: "raises_only C (fraction_id_of item)"
  unfolding fraction_id_of_def
  by (intro raises_only_ebind) simp_all

lemma raises_only_parse_timestamp [simp]: "raises_only C (parse_timestamp t)"
  unfolding parse_timestamp_def Let_def
  by (intro raises_only_ebind raises_only_if) simp_all



















end
